theory Spec2Isabelle
  imports Main "HOL-Library.Sublist"
begin

section \<open>Data model (src/types.ts)\<close>

text \<open>
  JavaScript strings are modelled as \<^typ>\<open>string\<close>, an array as a list, and a plain
  object used as a dictionary as the map of its own properties. A property read on such
  an object also finds the members that every plain object inherits from
  \<open>Object.prototype\<close>; \<open>getProp\<close> below models that read, and \<open>getLanguage\<close>,
  \<open>getLanguagesByType\<close> and the index builder read through it. The dataset is the list of
  its entries in the order of \<open>Object.entries\<close>. A \<open>LanguageType\<close> is a string at run time
  (the generator stores whatever string the dataset gives, and the tests pass strings
  outside the union type), so it is a \<^typ>\<open>string\<close> here.
\<close>

type_synonym LanguageType = string

record Language =
  name :: string
  type :: LanguageType
  extensions :: "string list"
  filenames :: "string list"
  group :: "string option"

type_synonym LanguagesMap = "string \<rightharpoonup> Language"
type_synonym LookUpMap = "string \<rightharpoonup> string list"
type_synonym TypeMap = "string \<rightharpoonup> string list"

text \<open>
  The incoming definition of one language (interface \<open>LinguistDef\<close> of
  scripts/generateJSONs.ts); the optional fields are options. The fields carry the prefix
  \<open>def_\<close> to keep them apart from the fields of \<^typ>\<open>Language\<close>.
\<close>

record LinguistDef =
  def_type :: string
  def_extensions :: "string list option"
  def_filenames :: "string list option"
  def_group :: "string option"

section \<open>Primitives of the host language\<close>

subsection \<open>Property reads and writes on plain objects\<close>

text \<open>
  The names of the members of \<open>Object.prototype\<close>. All of them are functions, except
  \<open>__proto__\<close>, an accessor whose getter returns the prototype object itself.
\<close>

definition objectPrototypeNames :: "string list" where
  "objectPrototypeNames =
     [''constructor'', ''__proto__'', ''hasOwnProperty'', ''isPrototypeOf'',
      ''propertyIsEnumerable'', ''toLocaleString'', ''toString'', ''valueOf'',
      ''__defineGetter__'', ''__defineSetter__'', ''__lookupGetter__'', ''__lookupSetter__'']"

text \<open>
  The value of \<open>obj[key]\<close>: the own property when there is one, else the inherited member
  of that name (a truthy value that is neither an array nor a record), else \<open>undefined\<close>.
\<close>

datatype 'a lookup = Own 'a | Inherited string | Missing

definition getProp :: "(string \<rightharpoonup> 'a) \<Rightarrow> string \<Rightarrow> 'a lookup" where
  "getProp obj key =
     (case obj key of
        Some v \<Rightarrow> Own v
      | None \<Rightarrow> if key \<in> set objectPrototypeNames then Inherited key else Missing)"

text \<open>
  The assignment \<open>obj[key] = value\<close> of an object value. For the key \<open>__proto__\<close> on an
  object with no own property of that name, the inherited setter runs: it replaces the
  prototype of \<open>obj\<close> and creates no own property. Every other assignment creates or
  overwrites the own property.
\<close>

definition setProp :: "(string \<rightharpoonup> 'a) \<Rightarrow> string \<Rightarrow> 'a \<Rightarrow> (string \<rightharpoonup> 'a)" where
  "setProp obj key v =
     (if key = ''__proto__'' \<and> obj key = None then obj else obj(key \<mapsto> v))"

text \<open>
  The \<open>length\<close> of an inherited member, as a loop bound \<open>i < member.length\<close> sees it: the
  number of declared parameters of the function, and no iteration for the prototype
  object, which has no \<open>length\<close>. An index read \<open>member[i]\<close> is \<open>undefined\<close>, which as a
  property key is the string \<open>undefined\<close>.
\<close>

definition inheritedLength :: "string \<Rightarrow> nat" where
  "inheritedLength m =
     (if m \<in> set [''constructor'', ''hasOwnProperty'', ''isPrototypeOf'',
                   ''propertyIsEnumerable'', ''__lookupGetter__'', ''__lookupSetter__'']
      then 1
      else if m \<in> set [''__defineGetter__'', ''__defineSetter__''] then 2
      else 0)"

subsection \<open>Strings\<close>

text \<open>
  \<open>String.prototype.toLowerCase\<close> is a parameter \<open>toLowerCase\<close> of every definition that
  calls it. On a string of ASCII characters it is the function \<open>toLowerCaseASCII\<close>, which
  moves the letters \<open>A\<close> to \<open>Z\<close> to \<open>a\<close> to \<open>z\<close>; the concrete datasets below are ASCII
  and are run with it.
\<close>

definition lowerChar :: "char \<Rightarrow> char" where
  "lowerChar c =
     (let n = (of_char c :: nat) in if 65 \<le> n \<and> n \<le> 90 then char_of (n + 32) else c)"

definition toLowerCaseASCII :: "string \<Rightarrow> string" where
  "toLowerCaseASCII s = map lowerChar s"

text \<open>
  \<open>s.lastIndexOf(c)\<close> for a one-character search string: the greatest index at which
  \<open>c\<close> occurs in \<open>s\<close>, or \<open>-1\<close> when it does not occur.
\<close>

fun lastIndexOf :: "string \<Rightarrow> char \<Rightarrow> int" where
  "lastIndexOf [] c = - 1"
| "lastIndexOf (x # xs) c =
     (let r = lastIndexOf xs c in
      if r \<noteq> - 1 then r + 1 else if x = c then 0 else - 1)"

text \<open>
  \<open>s.slice(start)\<close>: a negative start counts from the end, and the start is clamped to
  the length of the string.
\<close>

definition slice :: "string \<Rightarrow> int \<Rightarrow> string" where
  "slice s start =
     (let n = int (length s);
          b = (if start < 0 then max (n + start) 0 else min start n)
      in drop (nat b) s)"

section \<open>The resolver (src/index.ts)\<close>

definition getBasename :: "string \<Rightarrow> string" where
  "getBasename fileName =
     (let fwd = lastIndexOf fileName CHR ''/'';
          back = lastIndexOf fileName (CHR 0x5C);
          lastSlash = max fwd back
      in if lastSlash = - 1 then fileName else slice fileName (lastSlash + 1))"

definition getExtension :: "string \<Rightarrow> string option \<Rightarrow> string" where
  "getExtension fileName knownBaseName =
     (let base = (case knownBaseName of Some b \<Rightarrow> b | None \<Rightarrow> getBasename fileName);
          lastDotIndex = lastIndexOf base CHR ''.''
      in if lastDotIndex \<le> 0 then '''' else slice base lastDotIndex)"

text \<open>
  \<open>languagesData[key] || null\<close>: the result \<open>Missing\<close> stands for \<open>null\<close>. A record and an
  inherited member are both truthy and are returned as they are.
\<close>

definition getLanguage :: "(string \<Rightarrow> string) \<Rightarrow> LanguagesMap \<Rightarrow> string \<Rightarrow> Language lookup" where
  "getLanguage toLowerCase languagesData languageName =
     (let key = toLowerCase languageName in getProp languagesData key)"

text \<open>
  \<open>typesData[type] || []\<close>: a stored array is truthy, also when it is empty, and so is an
  inherited member; only \<open>undefined\<close> is replaced by the empty array.
\<close>

definition getLanguagesByType :: "TypeMap \<Rightarrow> LanguageType \<Rightarrow> string list lookup" where
  "getLanguagesByType typesData t =
     (case getProp typesData t of
        Missing \<Rightarrow> Own []
      | Own names \<Rightarrow> Own names
      | Inherited m \<Rightarrow> Inherited m)"

text \<open>
  The loop of \<open>getLanguageByFileName\<close> over the candidate keys: a key with no record is
  skipped; when a filter is given (a non-empty string: the source tests its truthiness), a
  record of another type is skipped; the name of every other record is pushed.
\<close>

fun collectResults :: "LanguagesMap \<Rightarrow> LanguageType option \<Rightarrow> string list \<Rightarrow> string list" where
  "collectResults languagesData typeFilter [] = []"
| "collectResults languagesData typeFilter (key # keys) =
     (case languagesData key of
        None \<Rightarrow> collectResults languagesData typeFilter keys
      | Some lang \<Rightarrow>
          (case typeFilter of
             None \<Rightarrow> name lang # collectResults languagesData typeFilter keys
           | Some tf \<Rightarrow>
               if tf \<noteq> '''' \<and> type lang \<noteq> tf
               then collectResults languagesData typeFilter keys
               else name lang # collectResults languagesData typeFilter keys))"

definition candidateKeys :: "LookUpMap \<Rightarrow> LookUpMap \<Rightarrow> string \<Rightarrow> string list" where
  "candidateKeys extensionsData filenamesData fileName =
     (let base = getBasename fileName;
          ext = getExtension fileName None
      in case filenamesData base of
           Some ks \<Rightarrow> ks
         | None \<Rightarrow>
             (if ext \<noteq> '''' then
                (case extensionsData ext of Some ks \<Rightarrow> ks | None \<Rightarrow> [])
              else []))"

definition getLanguageByFileName ::
  "LanguagesMap \<Rightarrow> LookUpMap \<Rightarrow> LookUpMap \<Rightarrow> string \<Rightarrow> LanguageType option \<Rightarrow> string list option" where
  "getLanguageByFileName languagesData extensionsData filenamesData fileName typeFilter =
     (let candidates = candidateKeys extensionsData filenamesData fileName
      in if length candidates = 0 then None
         else
           (let results = collectResults languagesData typeFilter candidates
            in if length results > 0 then Some results else None))"

text \<open>
  An earlier revision of the resolver (src/unnamed/part_003) has the same
  \<open>getBasename\<close>, \<open>getExtension\<close>, \<open>getLanguage\<close> and \<open>getLanguageByFileName\<close>, and a
  \<open>getLanguagesByType\<close> that returns what it finds in \<open>languagesData\<close>: every stored entry
  of the type index is read from \<open>languagesData\<close> as it is (no lowercasing), and the
  entries for which the read gives \<open>undefined\<close> are left out.
\<close>

fun resolveKeys :: "LanguagesMap \<Rightarrow> string list \<Rightarrow> Language lookup list" where
  "resolveKeys languagesData [] = []"
| "resolveKeys languagesData (k # keys) =
     (case getProp languagesData k of
        Missing \<Rightarrow> resolveKeys languagesData keys
      | Own lang \<Rightarrow> Own lang # resolveKeys languagesData keys
      | Inherited m \<Rightarrow> Inherited m # resolveKeys languagesData keys)"

definition getLanguagesByType_part_003 ::
  "LanguagesMap \<Rightarrow> TypeMap \<Rightarrow> LanguageType \<Rightarrow> Language lookup list" where
  "getLanguagesByType_part_003 languagesData typesData t =
     (case getProp typesData t of
        Missing \<Rightarrow> []
      | Own keys \<Rightarrow> resolveKeys languagesData keys
      | Inherited m \<Rightarrow>
          resolveKeys languagesData (replicate (inheritedLength m) ''undefined''))"

section \<open>The index builder (scripts/generateJSONs.ts)\<close>

text \<open>
  The four structures that \<open>generateJSONs\<close> builds and writes, one JSON file each; the
  resolver imports them as \<open>languagesData\<close>, \<open>extensionsData\<close>, \<open>filenamesData\<close> and
  \<open>typesData\<close>. A JSON file holds the own properties of the object written.
\<close>

record Generated =
  languagesDB :: LanguagesMap
  extensionIndex :: LookUpMap
  filenameIndex :: LookUpMap
  typesDB :: TypeMap

text \<open>
  The builder has no \<open>throw\<close> of its own in the loop; what can fail there is a call of
  \<open>push\<close> on a value that has no such method, a \<open>TypeError\<close>. The rejected promise is
  caught at the end of the script, after which nothing has been written.
\<close>

datatype error = TypeError

text \<open>
  \<open>if (!index[id]) index[id] = []; index[id].push(key)\<close>: when the read gives \<open>undefined\<close>
  an empty entry is created, and \<open>key\<close> is appended to the entry. When \<open>id\<close> names an
  inherited member, the read is truthy, no entry is created, and the member has no
  \<open>push\<close>.
\<close>

definition pushTo :: "LookUpMap \<Rightarrow> string \<Rightarrow> string \<Rightarrow> error + LookUpMap" where
  "pushTo index ident key =
     (case getProp index ident of
        Missing \<Rightarrow> Inr (index(ident \<mapsto> [key]))
      | Own ks \<Rightarrow> Inr (index(ident \<mapsto> ks @ [key]))
      | Inherited m \<Rightarrow> Inl TypeError)"

text \<open>The inner loops \<open>for (const ext of def.extensions)\<close> and \<open>for (const file of def.filenames)\<close>.\<close>

fun pushAll :: "LookUpMap \<Rightarrow> string list \<Rightarrow> string \<Rightarrow> error + LookUpMap" where
  "pushAll index [] key = Inr index"
| "pushAll index (ident # idents) key =
     (case pushTo index ident key of
        Inl e \<Rightarrow> Inl e
      | Inr index' \<Rightarrow> pushAll index' idents key)"

text \<open>
  \<open>if (def.type && typesDB[def.type]) typesDB[def.type].push(originalName)\<close>: an empty
  type and a type with no entry are passed over; a type that names an inherited member
  passes the test, and the member has no \<open>push\<close>.
\<close>

definition pushType :: "TypeMap \<Rightarrow> string \<Rightarrow> string \<Rightarrow> error + TypeMap" where
  "pushType types t originalName =
     (if t \<noteq> '''' then
        (case getProp types t of
           Missing \<Rightarrow> Inr types
         | Own names \<Rightarrow> Inr (types(t \<mapsto> names @ [originalName]))
         | Inherited m \<Rightarrow> Inl TypeError)
      else Inr types)"

text \<open>
  The record stored for one entry of the dataset. A missing list becomes the empty list;
  the group is kept when it is present and truthy, that is a non-empty string.
\<close>

definition makeLanguage :: "string \<Rightarrow> LinguistDef \<Rightarrow> Language" where
  "makeLanguage originalName ldef =
     \<lparr> name = originalName,
       type = def_type ldef,
       extensions = (case def_extensions ldef of Some es \<Rightarrow> es | None \<Rightarrow> []),
       filenames = (case def_filenames ldef of Some fs \<Rightarrow> fs | None \<Rightarrow> []),
       group = (case def_group ldef of
                  Some g \<Rightarrow> if g \<noteq> '''' then Some g else None
                | None \<Rightarrow> None) \<rparr>"

text \<open>
  The body of the main loop, for one pair \<open>[originalName, def]\<close>, in the order of the
  source: the record is assigned, then the extensions, the filenames and the type are
  pushed. The first \<open>TypeError\<close> ends the run.
\<close>

definition processEntry ::
  "(string \<Rightarrow> string) \<Rightarrow> Generated \<Rightarrow> string \<times> LinguistDef \<Rightarrow> error + Generated" where
  "processEntry toLowerCase g entry =
     (let originalName = fst entry;
          ldef = snd entry;
          key = toLowerCase originalName;
          languages = setProp (languagesDB g) key (makeLanguage originalName ldef)
      in case (case def_extensions ldef of
                 Some es \<Rightarrow> pushAll (extensionIndex g) es key
               | None \<Rightarrow> Inr (extensionIndex g)) of
           Inl e \<Rightarrow> Inl e
         | Inr exts \<Rightarrow>
             (case (case def_filenames ldef of
                      Some fs \<Rightarrow> pushAll (filenameIndex g) fs key
                    | None \<Rightarrow> Inr (filenameIndex g)) of
                Inl e \<Rightarrow> Inl e
              | Inr files \<Rightarrow>
                  (case pushType (typesDB g) (def_type ldef) originalName of
                     Inl e \<Rightarrow> Inl e
                   | Inr types \<Rightarrow>
                       Inr \<lparr> languagesDB = languages, extensionIndex = exts,
                             filenameIndex = files, typesDB = types \<rparr>)))"

definition initialIndices :: Generated where
  "initialIndices =
     \<lparr> languagesDB = Map.empty,
       extensionIndex = Map.empty,
       filenameIndex = Map.empty,
       typesDB = [''data'' \<mapsto> [], ''programming'' \<mapsto> [], ''markup'' \<mapsto> [], ''prose'' \<mapsto> []] \<rparr>"

text \<open>
  The main loop over \<open>Object.entries(rawLanguages)\<close>: the dataset is the list of its
  entries in that order. The download and the parsing of the dataset come before the
  loop and the writing of the files after it; they are not part of the model.
\<close>

fun processEntries ::
  "(string \<Rightarrow> string) \<Rightarrow> Generated \<Rightarrow> (string \<times> LinguistDef) list \<Rightarrow> error + Generated" where
  "processEntries toLowerCase g [] = Inr g"
| "processEntries toLowerCase g (entry # entries) =
     (case processEntry toLowerCase g entry of
        Inl e \<Rightarrow> Inl e
      | Inr g' \<Rightarrow> processEntries toLowerCase g' entries)"

definition generateJSONs ::
  "(string \<Rightarrow> string) \<Rightarrow> (string \<times> LinguistDef) list \<Rightarrow> error + Generated" where
  "generateJSONs toLowerCase rawLanguages = processEntries toLowerCase initialIndices rawLanguages"

section \<open>Definitions that follow the specification\<close>

text \<open>
  The basename as the specification words it: the part of the path after the rightmost
  occurrence of either separator, \<open>/\<close> or the backslash, and the whole path when there
  is none. It is the longest suffix of the path that holds no separator.
\<close>

definition isSeparator :: "char \<Rightarrow> bool" where
  "isSeparator c = (c = CHR ''/'' \<or> c = CHR 0x5C)"

definition basename_spec :: "string \<Rightarrow> string" where
  "basename_spec p = rev (takeWhile (\<lambda>c. \<not> isSeparator c) (rev p))"

text \<open>
  The list stored in an index for an identifier, empty when there is none; and the lists
  of a dataset entry, empty when the entry has none (\<open>def.extensions || []\<close>).
\<close>

definition entryOf :: "LookUpMap \<Rightarrow> string \<Rightarrow> string list" where
  "entryOf index ident = (case index ident of None \<Rightarrow> [] | Some ks \<Rightarrow> ks)"

definition extensionsOf :: "LinguistDef \<Rightarrow> string list" where
  "extensionsOf ldef = (case def_extensions ldef of Some es \<Rightarrow> es | None \<Rightarrow> [])"

definition filenamesOf :: "LinguistDef \<Rightarrow> string list" where
  "filenamesOf ldef = (case def_filenames ldef of Some fs \<Rightarrow> fs | None \<Rightarrow> [])"

text \<open>
  The display names of the languages that claim an extension, in the order of the dataset.
  An entry contributes its name once for each time its extension list holds the extension,
  so once when the list has no repetition.
\<close>

fun claimingNames :: "string \<Rightarrow> (string \<times> LinguistDef) list \<Rightarrow> string list" where
  "claimingNames e [] = []"
| "claimingNames e (entry # entries) =
     replicate (count_list (extensionsOf (snd entry)) e) (fst entry) @ claimingNames e entries"

text \<open>The names of the dataset entries of a category, in the order of the dataset.\<close>

definition namesOfType :: "LanguageType \<Rightarrow> (string \<times> LinguistDef) list \<Rightarrow> string list" where
  "namesOfType c rawLanguages = map fst (filter (\<lambda>entry. def_type (snd entry) = c) rawLanguages)"

text \<open>
  \<open>getLanguagesByType\<close> as the specification words it: every display name stored in the
  category index is resolved again through \<open>getLanguage\<close>, and what is found is returned
  in the stored order.
\<close>

definition getLanguagesByType_spec ::
  "(string \<Rightarrow> string) \<Rightarrow> LanguagesMap \<Rightarrow> TypeMap \<Rightarrow> LanguageType \<Rightarrow> Language lookup list" where
  "getLanguagesByType_spec toLowerCase languagesData typesData c =
     (case typesData c of
        None \<Rightarrow> []
      | Some names \<Rightarrow>
          filter (\<lambda>v. v \<noteq> Missing) (map (getLanguage toLowerCase languagesData) names))"




section \<open>Concrete datasets\<close>

text \<open>The indices of a run of the builder; the initial ones when the run failed.\<close>

definition built :: "error + Generated \<Rightarrow> Generated" where
  "built r = (case r of Inr g \<Rightarrow> g | Inl e \<Rightarrow> initialIndices)"

text \<open>
  Six entries in the shape of the Linguist dataset, used to run the builder and the
  resolver on concrete inputs: an extension claimed by three languages, an exact filename
  whose suffix is also a registered extension, and languages of three categories.
\<close>

definition sampleLanguages :: "(string \<times> LinguistDef) list" where
  "sampleLanguages =
     [(''CMake'', \<lparr>def_type = ''programming'', def_extensions = Some [''.cmake'', ''.cmake.in''],
         def_filenames = Some [''CMakeLists.txt''], def_group = None\<rparr>),
      (''JSON'', \<lparr>def_type = ''data'', def_extensions = Some [''.json''],
         def_filenames = Some [''.arcconfig''], def_group = None\<rparr>),
      (''RenderScript'', \<lparr>def_type = ''programming'', def_extensions = Some [''.rs'', ''.rsh''],
         def_filenames = None, def_group = None\<rparr>),
      (''Rust'', \<lparr>def_type = ''programming'', def_extensions = Some [''.rs'', ''.rs.in''],
         def_filenames = None, def_group = None\<rparr>),
      (''Text'', \<lparr>def_type = ''prose'', def_extensions = Some [''.txt''],
         def_filenames = Some [''README.me''], def_group = None\<rparr>),
      (''XML'', \<lparr>def_type = ''data'', def_extensions = Some [''.rs'', ''.xml''],
         def_filenames = Some [''.classpath''], def_group = None\<rparr>)]"

definition sample :: Generated where
  "sample = built (generateJSONs toLowerCaseASCII sampleLanguages)"

text \<open>
  A dataset in which two names that differ in letter case only share a lowercased key.
\<close>

definition collidingLanguages :: "(string \<times> LinguistDef) list" where
  "collidingLanguages =
     [(''Foo'', \<lparr>def_type = ''programming'', def_extensions = Some [''.foo''],
         def_filenames = Some [''Foofile''], def_group = None\<rparr>),
      (''FOO'', \<lparr>def_type = ''data'', def_extensions = Some [''.foo''],
         def_filenames = None, def_group = None\<rparr>)]"

definition colliding :: Generated where
  "colliding = built (generateJSONs toLowerCaseASCII collidingLanguages)"

text \<open>
  A dataset in which two languages claim an extension with two dots, and a third claims
  the part of it from the last dot on.
\<close>

definition multiDotLanguages :: "(string \<times> LinguistDef) list" where
  "multiDotLanguages =
     [(''A'', \<lparr>def_type = ''programming'', def_extensions = Some [''.x.in''],
         def_filenames = None, def_group = None\<rparr>),
      (''B'', \<lparr>def_type = ''programming'', def_extensions = Some [''.x.in''],
         def_filenames = None, def_group = None\<rparr>),
      (''C'', \<lparr>def_type = ''data'', def_extensions = Some [''.in''],
         def_filenames = None, def_group = None\<rparr>)]"

definition multiDot :: Generated where
  "multiDot = built (generateJSONs toLowerCaseASCII multiDotLanguages)"


definition protoLanguages :: "(string \<times> LinguistDef) list" where
  "protoLanguages =
     [(''__proto__'', \<lparr>def_type = ''programming'', def_extensions = Some [''.pp''],
         def_filenames = None, def_group = None\<rparr>)]"

section \<open>Properties of the path helpers\<close>

lemma lastIndexOf_notin: "c \<notin> set s \<Longrightarrow> lastIndexOf s c = - 1"
  by (induction s) (auto simp: Let_def)

lemma lastIndexOf_ge: "- 1 \<le> lastIndexOf s c"
  by (induction s) (auto simp: Let_def)

lemma lastIndexOf_in: "c \<in> set s \<Longrightarrow> 0 \<le> lastIndexOf s c"
proof (induction s)
  case Nil
  then show ?case by simp
next
  case (Cons x xs)
  have "- 1 \<le> lastIndexOf xs c" by (rule lastIndexOf_ge)
  with Cons show ?case by (auto simp: Let_def)
qed

lemma lastIndexOf_lt: "lastIndexOf s c < int (length s)"
  by (induction s) (auto simp: Let_def)

lemma lastIndexOf_append_notin: "c \<notin> set ys \<Longrightarrow> lastIndexOf (xs @ ys) c = lastIndexOf xs c"
  by (induction xs) (auto simp: Let_def lastIndexOf_notin)

lemma lastIndexOf_append_in:
  "c \<in> set ys \<Longrightarrow> lastIndexOf (xs @ ys) c = int (length xs) + lastIndexOf ys c"
proof (induction xs)
  case Nil
  then show ?case by simp
next
  case (Cons x xs)
  from Cons.prems have "0 \<le> lastIndexOf ys c" by (rule lastIndexOf_in)
  with Cons show ?case by (simp add: Let_def)
qed

lemma lastIndexOf_last: "c \<notin> set ys \<Longrightarrow> lastIndexOf (xs @ c # ys) c = int (length xs)"
  using lastIndexOf_append_in [of c "c # ys" xs] by (simp add: Let_def lastIndexOf_notin)

lemma slice_drop: "0 \<le> i \<Longrightarrow> slice s i = drop (nat i) s"
  by (auto simp: slice_def Let_def min_def)

lemma getBasename_nosep:
  assumes "CHR ''/'' \<notin> set p" and "CHR 0x5C \<notin> set p"
  shows "getBasename p = p"
  using assms by (simp add: getBasename_def Let_def lastIndexOf_notin)

lemma getBasename_split:
  assumes s: "isSeparator s" and ys: "CHR ''/'' \<notin> set ys" "CHR 0x5C \<notin> set ys"
  shows "getBasename (xs @ s # ys) = ys"
proof -
  let ?p = "xs @ s # ys"
  let ?o = "if s = CHR ''/'' then CHR 0x5C else CHR ''/''"
  have same: "lastIndexOf ?p s = int (length xs)"
    using s ys by (auto simp: isSeparator_def intro!: lastIndexOf_last)
  have "?o \<notin> set (s # ys)" using s ys by (auto simp: isSeparator_def)
  then have "lastIndexOf ?p ?o = lastIndexOf xs ?o"
    using lastIndexOf_append_notin [of ?o "s # ys" xs] by simp
  then have other: "lastIndexOf ?p ?o < int (length xs)"
    using lastIndexOf_lt [of xs ?o] by simp
  have m: "max (lastIndexOf ?p CHR ''/'') (lastIndexOf ?p (CHR 0x5C)) = int (length xs)"
    using same other s by (auto simp: isSeparator_def split: if_splits)
  have n: "nat (int (length xs) + 1) = Suc (length xs)" by simp
  show ?thesis
    unfolding getBasename_def Let_def m by (simp add: slice_drop n)
qed

lemma basename_spec_nosep: "(\<forall>c\<in>set p. \<not> isSeparator c) \<Longrightarrow> basename_spec p = p"
  by (simp add: basename_spec_def takeWhile_eq_all_conv [THEN iffD2])

lemma basename_spec_split:
  assumes s: "isSeparator s" and ys: "\<forall>c\<in>set ys. \<not> isSeparator c"
  shows "basename_spec (xs @ s # ys) = ys"
proof -
  have "takeWhile (\<lambda>c. \<not> isSeparator c) (rev ys @ s # rev xs) =
        rev ys @ takeWhile (\<lambda>c. \<not> isSeparator c) (s # rev xs)"
    using ys by (intro takeWhile_append2) simp
  with s show ?thesis by (simp add: basename_spec_def)
qed

lemma getBasename_eq_spec: "getBasename p = basename_spec p"
proof (cases "\<exists>c\<in>set p. isSeparator c")
  case True
  then obtain xs s ys where p: "p = xs @ s # ys" and s: "isSeparator s"
    and ys: "\<forall>c\<in>set ys. \<not> isSeparator c"
    using split_list_last_prop [of p isSeparator] by blast
  from ys have "CHR ''/'' \<notin> set ys" "CHR 0x5C \<notin> set ys" by (auto simp: isSeparator_def)
  with s have "getBasename (xs @ s # ys) = ys" by (rule getBasename_split)
  with p s ys show ?thesis by (simp add: basename_spec_split)
next
  case False
  then have "CHR ''/'' \<notin> set p" "CHR 0x5C \<notin> set p" by (auto simp: isSeparator_def)
  then have "getBasename p = p" by (rule getBasename_nosep)
  with False show ?thesis by (simp add: basename_spec_nosep)
qed

lemma basename_spec_free: "c \<in> set (basename_spec p) \<Longrightarrow> \<not> isSeparator c"
  unfolding basename_spec_def using set_takeWhileD [of c "\<lambda>c. \<not> isSeparator c" "rev p"] by simp

lemma getBasename_idem: "getBasename (getBasename p) = getBasename p"
proof -
  have "CHR ''/'' \<notin> set (getBasename p)" "CHR 0x5C \<notin> set (getBasename p)"
    using basename_spec_free [of _ p] by (auto simp: getBasename_eq_spec isSeparator_def)
  then show ?thesis by (rule getBasename_nosep)
qed

lemma getExtension_basename: "getExtension (getBasename p) None = getExtension p None"
  by (simp add: getExtension_def getBasename_idem)

lemma candidateKeys_basename: "candidateKeys E F (getBasename p) = candidateKeys E F p"
  by (simp add: candidateKeys_def getBasename_idem getExtension_basename)

section \<open>Properties of the lookup\<close>

lemma collectResults_subseq:
  "subseq (collectResults L tf ks) (collectResults L None ks)"
  by (induction ks) (auto split: option.splits)

lemma getLanguageByFileName_candidates:
  "getLanguageByFileName L E F p tf =
     (if collectResults L tf (candidateKeys E F p) = [] then None
      else Some (collectResults L tf (candidateKeys E F p)))"
  by (cases "candidateKeys E F p") (simp_all add: getLanguageByFileName_def Let_def)

lemma candidateKeys_exact:
  "F (getBasename p) = Some ks \<Longrightarrow> candidateKeys E F p = ks"
  by (simp add: candidateKeys_def Let_def)

section \<open>Claims about the resolver\<close>

text \<open>
  C2. For every path \<open>p\<close> and every optional category filter, \<open>getLanguageByFileName\<close>
  gives the same result on \<open>p\<close> as on the part of \<open>p\<close> after the rightmost \<open>/\<close> or
  backslash (all of \<open>p\<close> when it has neither); so a path that mixes both separators
  resolves as its bare basename does.
\<close>

theorem C2_basename_invariance:
  "getLanguageByFileName L E F p tf = getLanguageByFileName L E F (basename_spec p) tf"
  using candidateKeys_basename [of E F p]
  by (simp add: getLanguageByFileName_def getBasename_eq_spec)

theorem C2_basename_invariance_witness:
  "basename_spec (''C:'' @ [CHR 0x5C] @ ''a/b'' @ [CHR 0x5C] @ ''lib.rs'') = ''lib.rs''
   \<and> getLanguageByFileName (languagesDB sample) (extensionIndex sample) (filenameIndex sample)
        (''C:'' @ [CHR 0x5C] @ ''a/b'' @ [CHR 0x5C] @ ''lib.rs'') (Some ''data'') = Some [''XML'']
   \<and> getLanguageByFileName (languagesDB sample) (extensionIndex sample) (filenameIndex sample)
        ''lib.rs'' (Some ''data'') = Some [''XML'']"
proof -
  have b: "basename_spec (''C:'' @ [CHR 0x5C] @ ''a/b'' @ [CHR 0x5C] @ ''lib.rs'') = ''lib.rs''"
    by code_simp
  have r: "getLanguageByFileName (languagesDB sample) (extensionIndex sample) (filenameIndex sample)
        ''lib.rs'' (Some ''data'') = Some [''XML'']"
    by code_simp
  from C2_basename_invariance [of "languagesDB sample" "extensionIndex sample" "filenameIndex sample"
      "''C:'' @ [CHR 0x5C] @ ''a/b'' @ [CHR 0x5C] @ ''lib.rs''" "Some ''data''"]
  show ?thesis using b r by simp
qed

text \<open>
  C1. When the basename of the path is a key of the filename index, the candidate keys
  are that entry of the filename index and the result is computed from it alone: it is the
  same whatever the extension index holds, also when the suffix of the basename is a key of
  the extension index.
\<close>

theorem C1_exact_filename_first:
  assumes "F (getBasename p) = Some ks"
  shows "candidateKeys E F p = ks
       \<and> getLanguageByFileName L E F p tf =
           (if collectResults L tf ks = [] then None else Some (collectResults L tf ks))
       \<and> getLanguageByFileName L E F p tf = getLanguageByFileName L E' F p tf"
  using assms by (simp add: getLanguageByFileName_candidates candidateKeys_exact)

theorem C1_exact_filename_first_witness:
  "filenameIndex sample (getBasename ''src/CMakeLists.txt'') = Some [''cmake'']
   \<and> extensionIndex sample (getExtension ''src/CMakeLists.txt'' None) = Some [''text'']
   \<and> getLanguageByFileName (languagesDB sample) (extensionIndex sample) (filenameIndex sample)
         ''src/CMakeLists.txt'' None = Some [''CMake'']
   \<and> getLanguageByFileName (languagesDB sample) Map.empty (filenameIndex sample)
         ''src/CMakeLists.txt'' None = Some [''CMake'']"
proof -
  have f: "filenameIndex sample (getBasename ''src/CMakeLists.txt'') = Some [''cmake'']"
    by code_simp
  have e: "extensionIndex sample (getExtension ''src/CMakeLists.txt'' None) = Some [''text'']"
    by code_simp
  have r: "collectResults (languagesDB sample) None [''cmake''] = [''CMake'']"
    by code_simp
  note t = C1_exact_filename_first [where F = "filenameIndex sample"
      and p = "''src/CMakeLists.txt''" and ks = "[''cmake'']" and E = "extensionIndex sample"
      and L = "languagesDB sample" and tf = None and E' = Map.empty, OF f]
  have g: "getLanguageByFileName (languagesDB sample) (extensionIndex sample)
      (filenameIndex sample) ''src/CMakeLists.txt'' None = Some [''CMake'']"
    using t [THEN conjunct2, THEN conjunct1, unfolded r] by simp
  have h: "getLanguageByFileName (languagesDB sample) (extensionIndex sample)
      (filenameIndex sample) ''src/CMakeLists.txt'' None =
    getLanguageByFileName (languagesDB sample) Map.empty (filenameIndex sample)
      ''src/CMakeLists.txt'' None"
    by (rule t [THEN conjunct2, THEN conjunct2])
  have "getLanguageByFileName (languagesDB sample) Map.empty (filenameIndex sample)
      ''src/CMakeLists.txt'' None = Some [''CMake'']"
    using h [symmetric] g by (rule trans)
  with f e g show ?thesis by blast
qed

text \<open>
  C3. \<open>getLanguageByFileName\<close> never returns an empty list: the result is \<open>None\<close> (not
  found) or a non-empty list of names. In particular, when the loop over the candidate
  keys keeps no name, as when the category filter rejects every candidate, the result is
  \<open>None\<close>.
\<close>

theorem C3_never_empty:
  "getLanguageByFileName L E F p tf \<noteq> Some []
   \<and> (collectResults L tf (candidateKeys E F p) = [] \<longrightarrow>
        getLanguageByFileName L E F p tf = None)"
  by (simp add: getLanguageByFileName_candidates)

theorem C3_never_empty_witness:
  "candidateKeys (extensionIndex sample) (filenameIndex sample) ''package.json'' = [''json'']
   \<and> collectResults (languagesDB sample) (Some ''programming'') [''json''] = []
   \<and> getLanguageByFileName (languagesDB sample) (extensionIndex sample) (filenameIndex sample)
         ''package.json'' (Some ''programming'') = None"
proof -
  have c: "candidateKeys (extensionIndex sample) (filenameIndex sample) ''package.json'' = [''json'']"
    by code_simp
  have r: "collectResults (languagesDB sample) (Some ''programming'') [''json''] = []"
    by code_simp
  from C3_never_empty [of "languagesDB sample" "extensionIndex sample" "filenameIndex sample"
      "''package.json''" "Some ''programming''"]
  show ?thesis using c r by simp
qed

text \<open>
  C4. For every path and every category filter, the filtered result is a subsequence of
  the unfiltered result, in the same order, and it is \<open>None\<close> when that subsequence is
  empty; when the unfiltered result is \<open>None\<close>, so is the filtered one.
\<close>

theorem C4_filter_subsequence:
  "(case getLanguageByFileName L E F p None of
      None \<Rightarrow> getLanguageByFileName L E F p tf = None
    | Some ns \<Rightarrow>
        (\<exists>ms. subseq ms ns \<and>
           getLanguageByFileName L E F p tf = (if ms = [] then None else Some ms)))"
proof -
  let ?ks = "candidateKeys E F p"
  have s: "subseq (collectResults L tf ?ks) (collectResults L None ?ks)"
    by (rule collectResults_subseq)
  show ?thesis
  proof (cases "collectResults L None ?ks = []")
    case True
    with s have "collectResults L tf ?ks = []" by simp
    with True show ?thesis by (simp add: getLanguageByFileName_candidates)
  next
    case False
    then have "getLanguageByFileName L E F p None = Some (collectResults L None ?ks)"
      by (simp add: getLanguageByFileName_candidates)
    moreover have "getLanguageByFileName L E F p tf =
        (if collectResults L tf ?ks = [] then None else Some (collectResults L tf ?ks))"
      by (rule getLanguageByFileName_candidates)
    ultimately show ?thesis using s by auto
  qed
qed

theorem C4_filter_subsequence_witness:
  "getLanguageByFileName (languagesDB sample) (extensionIndex sample) (filenameIndex sample)
      ''lib.rs'' None = Some [''RenderScript'', ''Rust'', ''XML'']
   \<and> getLanguageByFileName (languagesDB sample) (extensionIndex sample) (filenameIndex sample)
      ''lib.rs'' (Some ''programming'') = Some [''RenderScript'', ''Rust'']
   \<and> subseq [''RenderScript'', ''Rust''] [''RenderScript'', ''Rust'', ''XML'']"
proof -
  have a: "getLanguageByFileName (languagesDB sample) (extensionIndex sample) (filenameIndex sample)
      ''lib.rs'' None = Some [''RenderScript'', ''Rust'', ''XML'']"
    by code_simp
  have b: "getLanguageByFileName (languagesDB sample) (extensionIndex sample) (filenameIndex sample)
      ''lib.rs'' (Some ''programming'') = Some [''RenderScript'', ''Rust'']"
    by code_simp
  from C4_filter_subsequence [of "languagesDB sample" "extensionIndex sample" "filenameIndex sample"
      "''lib.rs''" "Some ''programming''"]
  show ?thesis using a b by (auto split: if_splits)
qed



section \<open>Properties of lowercasing\<close>

lemma lowerChar_idem: "lowerChar (lowerChar c) = lowerChar c"
proof (cases "65 \<le> (of_char c :: nat) \<and> (of_char c :: nat) \<le> 90")
  case True
  then have "(of_char (char_of (of_char c + 32 :: nat)) :: nat) = of_char c + 32"
    by (simp add: of_char_of)
  with True show ?thesis by (simp add: lowerChar_def Let_def)
next
  case False
  then show ?thesis by (auto simp: lowerChar_def Let_def)
qed

lemma toLowerCaseASCII_idem: "toLowerCaseASCII (toLowerCaseASCII s) = toLowerCaseASCII s"
  by (simp add: toLowerCaseASCII_def lowerChar_idem)

section \<open>Properties of property reads\<close>

lemma getProp_Own: "getProp obj k = Own v \<longleftrightarrow> obj k = Some v"
  by (auto simp: getProp_def split: option.splits)

lemma getProp_Missing:
  "getProp obj k = Missing \<longleftrightarrow> obj k = None \<and> k \<notin> set objectPrototypeNames"
  by (auto simp: getProp_def split: option.splits)

lemma getProp_Inherited:
  "getProp obj k = Inherited m \<longleftrightarrow> obj k = None \<and> k \<in> set objectPrototypeNames \<and> m = k"
  by (auto simp: getProp_def split: option.splits)

section \<open>Properties of the index builder\<close>

lemma pushTo_Inr:
  "pushTo index ident key = Inr index' \<Longrightarrow>
   index' = index(ident \<mapsto> entryOf index ident @ [key])"
  by (auto simp: pushTo_def entryOf_def getProp_def split: lookup.splits option.splits if_splits)

lemma pushAll_None:
  "pushAll index idents key = Inr index' \<Longrightarrow>
   index' i = None \<longleftrightarrow> index i = None \<and> i \<notin> set idents"
proof (induction idents arbitrary: index)
  case Nil
  then show ?case by simp
next
  case (Cons a idents)
  then obtain mid where mid: "pushTo index a key = Inr mid" and rest: "pushAll mid idents key = Inr index'"
    by (auto split: sum.splits)
  from pushTo_Inr [OF mid] Cons.IH [OF rest] show ?case by auto
qed

lemma pushAll_entry:
  "pushAll index idents key = Inr index' \<Longrightarrow>
   entryOf index' i = entryOf index i @ replicate (count_list idents i) key"
proof (induction idents arbitrary: index)
  case Nil
  then show ?case by simp
next
  case (Cons a idents)
  then obtain mid where mid: "pushTo index a key = Inr mid" and rest: "pushAll mid idents key = Inr index'"
    by (auto split: sum.splits)
  have "entryOf mid i = entryOf index i @ (if i = a then [key] else [])"
    unfolding pushTo_Inr [OF mid] by (simp add: entryOf_def)
  with Cons.IH [OF rest] show ?case by (simp add: replicate_app_Cons_same)
qed

lemma pushType_Inr:
  "pushType types t n = Inr types' \<Longrightarrow>
   types' c =
     (case types c of
        None \<Rightarrow> None
      | Some names \<Rightarrow> Some (names @ (if c \<noteq> '''' \<and> t = c then [n] else [])))"
  by (auto simp: pushType_def getProp_def split: lookup.splits option.splits if_splits)

lemma processEntry_Inr:
  assumes "processEntry toLowerCase g entry = Inr g'"
  shows "languagesDB g' =
           setProp (languagesDB g) (toLowerCase (fst entry)) (makeLanguage (fst entry) (snd entry))"
    and "pushAll (extensionIndex g) (extensionsOf (snd entry)) (toLowerCase (fst entry)) =
           Inr (extensionIndex g')"
    and "pushAll (filenameIndex g) (filenamesOf (snd entry)) (toLowerCase (fst entry)) =
           Inr (filenameIndex g')"
    and "pushType (typesDB g) (def_type (snd entry)) (fst entry) = Inr (typesDB g')"
  using assms
  by (auto simp: processEntry_def Let_def extensionsOf_def filenamesOf_def
           split: sum.splits option.splits)

lemma processEntries_Cons:
  "processEntries toLowerCase g (entry # entries) = Inr g' \<Longrightarrow>
   \<exists>mid. processEntry toLowerCase g entry = Inr mid \<and> processEntries toLowerCase mid entries = Inr g'"
  by (auto split: sum.splits)

lemma processEntries_append:
  "processEntries toLowerCase g (xs @ ys) = Inr g' \<Longrightarrow>
   \<exists>mid. processEntries toLowerCase g xs = Inr mid \<and> processEntries toLowerCase mid ys = Inr g'"
  by (induction xs arbitrary: g) (auto split: sum.splits)

lemma languagesDB_untouched:
  "processEntries toLowerCase g ds = Inr g' \<Longrightarrow>
   \<forall>entry\<in>set ds. toLowerCase (fst entry) \<noteq> k \<Longrightarrow>
   languagesDB g' k = languagesDB g k"
proof (induction ds arbitrary: g)
  case Nil
  then show ?case by simp
next
  case (Cons a ds)
  from processEntries_Cons [OF Cons.prems(1)] obtain mid
    where mid: "processEntry toLowerCase g a = Inr mid"
      and rest: "processEntries toLowerCase mid ds = Inr g'" by blast
  from Cons.prems(2) have "languagesDB mid k = languagesDB g k"
    unfolding processEntry_Inr(1) [OF mid] by (auto simp: setProp_def)
  with Cons.IH [OF rest] Cons.prems(2) show ?case by simp
qed

lemma languagesDB_last_write:
  assumes run: "processEntries toLowerCase g (before @ (n, d) # after) = Inr g'"
    and last: "\<forall>entry\<in>set after. toLowerCase (fst entry) \<noteq> toLowerCase n"
    and key: "toLowerCase n \<noteq> ''__proto__''"
  shows "languagesDB g' (toLowerCase n) = Some (makeLanguage n d)"
proof -
  from processEntries_append [OF run] obtain g1
    where "processEntries toLowerCase g1 ((n, d) # after) = Inr g'" by blast
  from processEntries_Cons [OF this] obtain g2
    where step: "processEntry toLowerCase g1 (n, d) = Inr g2"
      and rest: "processEntries toLowerCase g2 after = Inr g'" by blast
  from key have "languagesDB g2 (toLowerCase n) = Some (makeLanguage n d)"
    unfolding processEntry_Inr(1) [OF step] by (simp add: setProp_def)
  with languagesDB_untouched [OF rest last] show ?thesis by simp
qed

lemma languagesDB_distinct:
  assumes run: "processEntries toLowerCase g ds = Inr g'"
    and dist: "distinct (map (toLowerCase \<circ> fst) ds)" and mem: "(n, d) \<in> set ds"
    and key: "toLowerCase n \<noteq> ''__proto__''"
  shows "languagesDB g' (toLowerCase n) = Some (makeLanguage n d)"
proof -
  from mem obtain before after where ds: "ds = before @ (n, d) # after"
    by (auto dest: split_list)
  with dist have "\<forall>entry\<in>set after. toLowerCase (fst entry) \<noteq> toLowerCase n"
    by (auto simp: image_iff)
  from languagesDB_last_write [OF run [unfolded ds] this key] show ?thesis .
qed

lemma languagesDB_kept:
  "processEntries toLowerCase g ds = Inr g' \<Longrightarrow> languagesDB g k \<noteq> None \<Longrightarrow>
   languagesDB g' k \<noteq> None"
proof (induction ds arbitrary: g)
  case Nil
  then show ?case by simp
next
  case (Cons a ds)
  from processEntries_Cons [OF Cons.prems(1)] obtain mid
    where mid: "processEntry toLowerCase g a = Inr mid"
      and rest: "processEntries toLowerCase mid ds = Inr g'" by blast
  from Cons.prems(2) have "languagesDB mid k \<noteq> None"
    unfolding processEntry_Inr(1) [OF mid] by (simp add: setProp_def)
  with Cons.IH [OF rest] show ?case by simp
qed

lemma languagesDB_stored:
  assumes run: "processEntries toLowerCase g ds = Inr g'" and mem: "(n, d) \<in> set ds"
    and key: "toLowerCase n \<noteq> ''__proto__''"
  shows "languagesDB g' (toLowerCase n) \<noteq> None"
proof -
  from mem obtain before after where ds: "ds = before @ (n, d) # after"
    by (auto dest: split_list)
  from processEntries_append [OF run [unfolded ds]] obtain g1
    where "processEntries toLowerCase g1 ((n, d) # after) = Inr g'" by blast
  from processEntries_Cons [OF this] obtain g2
    where step: "processEntry toLowerCase g1 (n, d) = Inr g2"
      and rest: "processEntries toLowerCase g2 after = Inr g'" by blast
  from key have "languagesDB g2 (toLowerCase n) \<noteq> None"
    unfolding processEntry_Inr(1) [OF step] by (simp add: setProp_def)
  with rest show ?thesis by (rule languagesDB_kept)
qed

lemma languagesDB_proto:
  "processEntries toLowerCase g ds = Inr g' \<Longrightarrow> languagesDB g ''__proto__'' = None \<Longrightarrow>
   languagesDB g' ''__proto__'' = None"
proof (induction ds arbitrary: g)
  case Nil
  then show ?case by simp
next
  case (Cons a ds)
  from processEntries_Cons [OF Cons.prems(1)] obtain mid
    where mid: "processEntry toLowerCase g a = Inr mid"
      and rest: "processEntries toLowerCase mid ds = Inr g'" by blast
  from Cons.prems(2) have "languagesDB mid ''__proto__'' = None"
    unfolding processEntry_Inr(1) [OF mid] by (simp add: setProp_def)
  with Cons.IH [OF rest] show ?case by simp
qed

lemma extensionIndex_entry:
  "processEntries toLowerCase g ds = Inr g' \<Longrightarrow>
   entryOf (extensionIndex g') e =
     entryOf (extensionIndex g) e @ map toLowerCase (claimingNames e ds)"
proof (induction ds arbitrary: g)
  case Nil
  then show ?case by simp
next
  case (Cons a ds)
  from processEntries_Cons [OF Cons.prems] obtain mid
    where mid: "processEntry toLowerCase g a = Inr mid"
      and rest: "processEntries toLowerCase mid ds = Inr g'" by blast
  from pushAll_entry [OF processEntry_Inr(2) [OF mid]] Cons.IH [OF rest]
  show ?case by simp
qed

lemma extensionIndex_None:
  "processEntries toLowerCase g ds = Inr g' \<Longrightarrow>
   extensionIndex g' e = None \<longleftrightarrow> extensionIndex g e = None \<and> claimingNames e ds = []"
proof (induction ds arbitrary: g)
  case Nil
  then show ?case by simp
next
  case (Cons a ds)
  from processEntries_Cons [OF Cons.prems] obtain mid
    where mid: "processEntry toLowerCase g a = Inr mid"
      and rest: "processEntries toLowerCase mid ds = Inr g'" by blast
  from pushAll_None [OF processEntry_Inr(2) [OF mid]] Cons.IH [OF rest]
  show ?case by (auto simp: count_list_0_iff)
qed

lemma extensionIndex_generateJSONs:
  assumes "generateJSONs toLowerCase ds = Inr g"
  shows "extensionIndex g e =
     (if claimingNames e ds = [] then None else Some (map toLowerCase (claimingNames e ds)))"
proof -
  note run = assms [unfolded generateJSONs_def]
  have e0: "extensionIndex initialIndices e = None" by (simp add: initialIndices_def)
  then have "entryOf (extensionIndex initialIndices) e = []" by (simp add: entryOf_def)
  with extensionIndex_entry [OF run, of e]
  have entry: "entryOf (extensionIndex g) e = map toLowerCase (claimingNames e ds)" by simp
  from extensionIndex_None [OF run, of e] e0
  have none: "extensionIndex g e = None \<longleftrightarrow> claimingNames e ds = []" by simp
  show ?thesis
  proof (cases "claimingNames e ds = []")
    case True
    with none show ?thesis by simp
  next
    case False
    with none obtain ks where "extensionIndex g e = Some ks" by auto
    with entry False show ?thesis by (simp add: entryOf_def)
  qed
qed

lemma index_keys_subset:
  assumes "processEntries toLowerCase g ds = Inr g'"
  shows "set (entryOf (extensionIndex g') i) \<subseteq>
           set (entryOf (extensionIndex g) i) \<union> (\<lambda>entry. toLowerCase (fst entry)) ` set ds
       \<and> set (entryOf (filenameIndex g') i) \<subseteq>
           set (entryOf (filenameIndex g) i) \<union> (\<lambda>entry. toLowerCase (fst entry)) ` set ds"
  using assms
proof (induction ds arbitrary: g)
  case Nil
  then show ?case by simp
next
  case (Cons a ds)
  from processEntries_Cons [OF Cons.prems] obtain mid
    where mid: "processEntry toLowerCase g a = Inr mid"
      and rest: "processEntries toLowerCase mid ds = Inr g'" by blast
  from pushAll_entry [OF processEntry_Inr(2) [OF mid], of i]
    pushAll_entry [OF processEntry_Inr(3) [OF mid], of i] Cons.IH [OF rest]
  show ?case by auto
qed

lemma typesDB_processEntries:
  "processEntries toLowerCase g ds = Inr g' \<Longrightarrow>
   typesDB g' c =
     (case typesDB g c of
        None \<Rightarrow> None
      | Some names \<Rightarrow> Some (names @ (if c = '''' then [] else namesOfType c ds)))"
proof (induction ds arbitrary: g)
  case Nil
  then show ?case by (simp add: namesOfType_def split: option.splits)
next
  case (Cons a ds)
  from processEntries_Cons [OF Cons.prems] obtain mid
    where mid: "processEntry toLowerCase g a = Inr mid"
      and rest: "processEntries toLowerCase mid ds = Inr g'" by blast
  from pushType_Inr [OF processEntry_Inr(4) [OF mid], of c] Cons.IH [OF rest]
  show ?case by (auto simp: namesOfType_def split: option.splits)
qed

lemma typesDB_generateJSONs:
  assumes "generateJSONs toLowerCase ds = Inr g"
  shows "typesDB g c =
     (if c \<in> {''data'', ''programming'', ''markup'', ''prose''}
      then Some (namesOfType c ds) else None)"
  unfolding typesDB_processEntries [OF assms [unfolded generateJSONs_def]]
  by (auto simp: initialIndices_def)

section \<open>When the builder fails\<close>







section \<open>Runs of the builder and further properties\<close>

text \<open>
  The builder completes on the three ASCII datasets. The lemmas after that say what the
  built indices hold: the names a lookup by extension resolves to, what a lookup by
  category finds for the name of an inherited member, the record a key keeps when names
  collide, and which keys of a reverse index have a record in the store.
\<close>

lemma built_Inr: "\<not> isl r \<Longrightarrow> r = Inr (built r)"
  by (cases r) (simp_all add: built_def)

lemma sample_built: "generateJSONs toLowerCaseASCII sampleLanguages = Inr sample"
proof -
  have "\<not> isl (generateJSONs toLowerCaseASCII sampleLanguages)" by code_simp
  then show ?thesis unfolding sample_def by (rule built_Inr)
qed

lemma colliding_built: "generateJSONs toLowerCaseASCII collidingLanguages = Inr colliding"
proof -
  have "\<not> isl (generateJSONs toLowerCaseASCII collidingLanguages)" by code_simp
  then show ?thesis unfolding colliding_def by (rule built_Inr)
qed

lemma multiDot_built: "generateJSONs toLowerCaseASCII multiDotLanguages = Inr multiDot"
proof -
  have "\<not> isl (generateJSONs toLowerCaseASCII multiDotLanguages)" by code_simp
  then show ?thesis unfolding multiDot_def by (rule built_Inr)
qed

lemma languagesDB_initial_proto:
  "generateJSONs toLowerCase ds = Inr g \<Longrightarrow> languagesDB g ''__proto__'' = None"
  unfolding generateJSONs_def
  by (erule languagesDB_proto) (simp add: initialIndices_def)

lemma collectResults_names:
  assumes "\<forall>n\<in>set ns. \<exists>r. L (toLowerCase n) = Some r \<and> name r = n"
  shows "collectResults L None (map toLowerCase ns) = ns"
  using assms by (induction ns) auto

lemma claimingNames_in_dataset: "set (claimingNames e ds) \<subseteq> fst ` set ds"
  by (induction ds) auto

lemma count_list_distinct:
  "distinct xs \<Longrightarrow> count_list xs x = (if x \<in> set xs then 1 else 0)"
  by (induction xs) auto

lemma claimingNames_distinct:
  "\<forall>entry\<in>set ds. distinct (extensionsOf (snd entry)) \<Longrightarrow>
   claimingNames e ds = map fst (filter (\<lambda>entry. e \<in> set (extensionsOf (snd entry))) ds)"
  by (induction ds) (auto simp: count_list_distinct)

lemma getLanguagesByType_inherited:
  assumes "generateJSONs toLowerCase rawLanguages = Inr g" and "c \<in> set objectPrototypeNames"
  shows "getLanguagesByType (typesDB g) c = Inherited c"
proof -
  from assms(2) have "c \<notin> {''data'', ''programming'', ''markup'', ''prose''}"
    by (auto simp: objectPrototypeNames_def)
  then have "typesDB g c = None" by (simp add: typesDB_generateJSONs [OF assms(1)])
  with assms(2) show ?thesis by (simp add: getLanguagesByType_def getProp_def)
qed

lemma last_write_wins_when_built:
  assumes "generateJSONs toLowerCase (before @ (n1, d1) # between @ (n2, d2) # after) = Inr g"
    and "toLowerCase n1 = toLowerCase n2"
    and "\<forall>entry\<in>set after. toLowerCase (fst entry) \<noteq> toLowerCase n2"
    and "toLowerCase n2 \<noteq> ''__proto__''"
  shows "languagesDB g (toLowerCase n1) = Some (makeLanguage n2 d2)"
proof -
  have "processEntries toLowerCase initialIndices ((before @ (n1, d1) # between) @ (n2, d2) # after)
      = Inr g"
    using assms(1) by (simp add: generateJSONs_def)
  from languagesDB_last_write [OF this assms(3,4)] assms(2) show ?thesis by simp
qed

lemma no_dangling_except_proto:
  assumes "generateJSONs toLowerCase rawLanguages = Inr g"
    and "extensionIndex g ident = Some ks \<or> filenameIndex g ident = Some ks"
    and "k \<in> set ks" and "k \<noteq> ''__proto__''"
  shows "\<exists>lang. languagesDB g k = Some lang"
proof -
  note run = assms(1) [unfolded generateJSONs_def]
  have e0: "entryOf (extensionIndex initialIndices) ident = []"
    and f0: "entryOf (filenameIndex initialIndices) ident = []"
    by (simp_all add: initialIndices_def entryOf_def)
  from assms(2,3) have "k \<in> set (entryOf (extensionIndex g) ident)
      \<or> k \<in> set (entryOf (filenameIndex g) ident)"
    by (auto simp: entryOf_def)
  then have "k \<in> (\<lambda>entry. toLowerCase (fst entry)) ` set rawLanguages"
    using index_keys_subset [OF run, of ident] e0 f0 by auto
  then obtain n d where "(n, d) \<in> set rawLanguages" "k = toLowerCase n" by auto
  with languagesDB_stored [OF run this(1)] assms(4) show ?thesis by auto
qed

section \<open>Claims about name lookup and the index builder\<close>

text \<open>
  C5. \<open>getLanguage\<close> is case-insensitive: looking a name up and looking its lowercased
  form up give the same result in every record store, lowercasing being idempotent on the
  name. For every language name of a dataset on which the builder completes, both lookups
  in the built store return one and the same value, which is not \<open>null\<close>; it is the
  record stored at the key of the name, unless that key is \<open>__proto__\<close>, for which both
  lookups return the inherited prototype object.
\<close>

theorem C5_getLanguage_case_insensitive:
  assumes "(n, d) \<in> set rawLanguages"
    and "generateJSONs toLowerCase rawLanguages = Inr g"
    and "toLowerCase (toLowerCase n) = toLowerCase n"
  shows "getLanguage toLowerCase languagesData (toLowerCase n) =
           getLanguage toLowerCase languagesData n
       \<and> (\<exists>v. v \<noteq> Missing
              \<and> getLanguage toLowerCase (languagesDB g) n = v
              \<and> getLanguage toLowerCase (languagesDB g) (toLowerCase n) = v)
       \<and> (toLowerCase n \<noteq> ''__proto__'' \<longrightarrow>
            (\<exists>r. getLanguage toLowerCase (languagesDB g) n = Own r
                 \<and> getLanguage toLowerCase (languagesDB g) (toLowerCase n) = Own r))"
proof -
  have same: "getLanguage toLowerCase L (toLowerCase n) = getLanguage toLowerCase L n" for L
    using assms(3) by (simp add: getLanguage_def)
  have found: "getLanguage toLowerCase (languagesDB g) n \<noteq> Missing"
  proof (cases "toLowerCase n = ''__proto__''")
    case True
    then show ?thesis
      by (simp add: getLanguage_def getProp_def objectPrototypeNames_def Let_def
               split: option.splits)
  next
    case False
    from languagesDB_stored [OF assms(2) [unfolded generateJSONs_def] assms(1) False]
    show ?thesis by (auto simp: getLanguage_def getProp_def)
  qed
  have own: "\<exists>r. getLanguage toLowerCase (languagesDB g) n = Own r"
    if "toLowerCase n \<noteq> ''__proto__''"
    using languagesDB_stored [OF assms(2) [unfolded generateJSONs_def] assms(1) that]
    by (auto simp: getLanguage_def getProp_def)
  from same found own show ?thesis by auto
qed

theorem C5_getLanguage_case_insensitive_witness:
  "(''RenderScript'', snd (sampleLanguages ! 2)) \<in> set sampleLanguages
   \<and> generateJSONs toLowerCaseASCII sampleLanguages = Inr sample
   \<and> toLowerCaseASCII ''RenderScript'' = ''renderscript''
   \<and> getLanguage toLowerCaseASCII (languagesDB sample) ''RenderScript'' =
       getLanguage toLowerCaseASCII (languagesDB sample) ''renderscript''
   \<and> (\<exists>r. getLanguage toLowerCaseASCII (languagesDB sample) ''RenderScript'' = Own r)"
proof -
  have m: "(''RenderScript'', snd (sampleLanguages ! 2)) \<in> set sampleLanguages" by code_simp
  have l: "toLowerCaseASCII ''RenderScript'' = ''renderscript''" by code_simp
  have i: "toLowerCaseASCII (toLowerCaseASCII ''RenderScript'') = toLowerCaseASCII ''RenderScript''"
    by (rule toLowerCaseASCII_idem)
  have p: "toLowerCaseASCII ''RenderScript'' \<noteq> ''__proto__''" unfolding l by simp
  note t = C5_getLanguage_case_insensitive [where rawLanguages = sampleLanguages
      and n = "''RenderScript''" and d = "snd (sampleLanguages ! 2)" and g = sample
      and toLowerCase = toLowerCaseASCII and languagesData = "languagesDB sample",
      OF m sample_built i]
  have a: "getLanguage toLowerCaseASCII (languagesDB sample) ''RenderScript'' =
      getLanguage toLowerCaseASCII (languagesDB sample) ''renderscript''"
    using t [THEN conjunct1] unfolding l by (rule sym)
  have b: "\<exists>r. getLanguage toLowerCaseASCII (languagesDB sample) ''RenderScript'' = Own r"
    using t [THEN conjunct2, THEN conjunct2, THEN mp, OF p] by blast
  from m sample_built l a b show ?thesis by blast
qed

text \<open>
  C6, as amended. Take a dataset on which the builder completes and in which no two names
  share a lowercased key, a path whose extension (the part of its basename from the last
  dot on) is \<open>e\<close>, with no exact-filename match, and let no language that claims \<open>e\<close>
  have the key \<open>__proto__\<close>. Then \<open>getLanguageByFileName\<close> returns the display names of
  the languages that claim \<open>e\<close>, in the order of the dataset; this covers every such
  extension claimed by two or more languages. It returns \<open>None\<close> when no language claims
  \<open>e\<close>.
\<close>

theorem C6_ambiguous_extension_order:
  assumes "generateJSONs toLowerCase rawLanguages = Inr g"
    and "distinct (map (toLowerCase \<circ> fst) rawLanguages)"
    and "\<forall>n\<in>set (claimingNames e rawLanguages). toLowerCase n \<noteq> ''__proto__''"
    and "getExtension fileName None = e" and "e \<noteq> ''''"
    and "filenameIndex g (getBasename fileName) = None"
  shows "getLanguageByFileName (languagesDB g) (extensionIndex g) (filenameIndex g) fileName None =
         (if claimingNames e rawLanguages = [] then None
          else Some (claimingNames e rawLanguages))"
proof -
  let ?ns = "claimingNames e rawLanguages"
  have cand: "candidateKeys (extensionIndex g) (filenameIndex g) fileName = map toLowerCase ?ns"
    using assms(4-6)
    by (simp add: candidateKeys_def Let_def extensionIndex_generateJSONs [OF assms(1)])
  have "\<forall>n\<in>set ?ns. \<exists>r. languagesDB g (toLowerCase n) = Some r \<and> name r = n"
  proof
    fix n assume n: "n \<in> set ?ns"
    then obtain d where d: "(n, d) \<in> set rawLanguages"
      using claimingNames_in_dataset [of e rawLanguages] by auto
    from n assms(3) have "toLowerCase n \<noteq> ''__proto__''" by blast
    from languagesDB_distinct [OF assms(1) [unfolded generateJSONs_def] assms(2) d this]
    show "\<exists>r. languagesDB g (toLowerCase n) = Some r \<and> name r = n"
      by (simp add: makeLanguage_def)
  qed
  then have "collectResults (languagesDB g) None (map toLowerCase ?ns) = ?ns"
    by (rule collectResults_names)
  with cand show ?thesis by (simp add: getLanguageByFileName_candidates)
qed

theorem C6_ambiguous_extension_order_witness:
  "generateJSONs toLowerCaseASCII sampleLanguages = Inr sample
   \<and> distinct (map (toLowerCaseASCII \<circ> fst) sampleLanguages)
   \<and> getExtension ''src/lib.rs'' None = ''.rs''
   \<and> filenameIndex sample (getBasename ''src/lib.rs'') = None
   \<and> claimingNames ''.rs'' sampleLanguages = [''RenderScript'', ''Rust'', ''XML'']
   \<and> getLanguageByFileName (languagesDB sample) (extensionIndex sample) (filenameIndex sample)
        ''src/lib.rs'' None = Some [''RenderScript'', ''Rust'', ''XML'']"
proof -
  have d: "distinct (map (toLowerCaseASCII \<circ> fst) sampleLanguages)" by code_simp
  have x: "getExtension ''src/lib.rs'' None = ''.rs''" by code_simp
  have n: "''.rs'' \<noteq> ''''" by simp
  have f: "filenameIndex sample (getBasename ''src/lib.rs'') = None" by code_simp
  have c: "claimingNames ''.rs'' sampleLanguages = [''RenderScript'', ''Rust'', ''XML'']"
    by code_simp
  have p: "\<forall>n\<in>set (claimingNames ''.rs'' sampleLanguages). toLowerCaseASCII n \<noteq> ''__proto__''"
    unfolding c by code_simp
  note t = C6_ambiguous_extension_order [where rawLanguages = sampleLanguages
      and fileName = "''src/lib.rs''" and e = "''.rs''" and g = sample
      and toLowerCase = toLowerCaseASCII, OF sample_built d p x n f]
  have "getLanguageByFileName (languagesDB sample) (extensionIndex sample) (filenameIndex sample)
        ''src/lib.rs'' None = Some [''RenderScript'', ''Rust'', ''XML'']"
    using t unfolding c by simp
  with sample_built d x f c show ?thesis by blast
qed

text \<open>
  C6 as stated, for every dataset and every claimed extension, fails in two ways. When two
  names share a lowercased key: both \<open>Foo\<close> and \<open>FOO\<close> claim \<open>.foo\<close>, the index entry is
  the key \<open>foo\<close> twice, and the store holds the later record only, so the result names
  \<open>FOO\<close> twice and \<open>Foo\<close> not at all. When the extension has two dots: \<open>A\<close> and \<open>B\<close>
  claim \<open>.x.in\<close>, but the extension taken from \<open>f.x.in\<close> is \<open>.in\<close>, and the result is
  the language \<open>C\<close> that claims \<open>.in\<close>.
\<close>

theorem C6_counterexample:
  "generateJSONs toLowerCaseASCII collidingLanguages = Inr colliding
   \<and> claimingNames ''.foo'' collidingLanguages = [''Foo'', ''FOO'']
   \<and> getExtension ''f.foo'' None = ''.foo''
   \<and> filenameIndex colliding (getBasename ''f.foo'') = None
   \<and> getLanguageByFileName (languagesDB colliding) (extensionIndex colliding)
        (filenameIndex colliding) ''f.foo'' None = Some [''FOO'', ''FOO'']
   \<and> generateJSONs toLowerCaseASCII multiDotLanguages = Inr multiDot
   \<and> distinct (map (toLowerCaseASCII \<circ> fst) multiDotLanguages)
   \<and> claimingNames ''.x.in'' multiDotLanguages = [''A'', ''B'']
   \<and> filenameIndex multiDot (getBasename (''f'' @ ''.x.in'')) = None
   \<and> getLanguageByFileName (languagesDB multiDot) (extensionIndex multiDot)
        (filenameIndex multiDot) (''f'' @ ''.x.in'') None = Some [''C'']"
proof -
  have a: "claimingNames ''.foo'' collidingLanguages = [''Foo'', ''FOO'']" by code_simp
  have b: "getExtension ''f.foo'' None = ''.foo''" by code_simp
  have c: "filenameIndex colliding (getBasename ''f.foo'') = None" by code_simp
  have d: "getLanguageByFileName (languagesDB colliding) (extensionIndex colliding)
        (filenameIndex colliding) ''f.foo'' None = Some [''FOO'', ''FOO'']"
    by code_simp
  have e: "distinct (map (toLowerCaseASCII \<circ> fst) multiDotLanguages)" by code_simp
  have f: "claimingNames ''.x.in'' multiDotLanguages = [''A'', ''B'']" by code_simp
  have g: "filenameIndex multiDot (getBasename (''f'' @ ''.x.in'')) = None" by code_simp
  have h: "getLanguageByFileName (languagesDB multiDot) (extensionIndex multiDot)
        (filenameIndex multiDot) (''f'' @ ''.x.in'') None = Some [''C'']"
    by code_simp
  from colliding_built multiDot_built a b c d e f g h show ?thesis by blast
qed

section \<open>The claim about lookup by category\<close>

text \<open>
  C7, as amended. For every argument \<open>c\<close> that is not the name of a member of
  \<open>Object.prototype\<close>, \<open>getLanguagesByType\<close> returns the display names stored in the
  category index for \<open>c\<close>, in the stored order, as they are: for the built index these
  are the names of all dataset entries whose category is \<open>c\<close>, in the order of the
  dataset, and the names are not resolved again through \<open>getLanguage\<close>. For such a \<open>c\<close>
  outside the four recognized categories the result is the empty list.
\<close>

theorem C7_stored_names:
  assumes "generateJSONs toLowerCase rawLanguages = Inr g"
    and "c \<notin> set objectPrototypeNames"
  shows "getLanguagesByType (typesDB g) c =
           Own (if c \<in> {''data'', ''programming'', ''markup'', ''prose''}
                then namesOfType c rawLanguages else [])"
  using assms(2)
  by (simp add: getLanguagesByType_def getProp_def typesDB_generateJSONs [OF assms(1)])

theorem C7_stored_names_witness:
  "generateJSONs toLowerCaseASCII sampleLanguages = Inr sample
   \<and> ''programming'' \<notin> set objectPrototypeNames
   \<and> ''aliens'' \<notin> set objectPrototypeNames
   \<and> namesOfType ''programming'' sampleLanguages = [''CMake'', ''RenderScript'', ''Rust'']
   \<and> getLanguagesByType (typesDB sample) ''programming'' =
        Own [''CMake'', ''RenderScript'', ''Rust'']
   \<and> getLanguagesByType (typesDB sample) ''aliens'' = Own []"
proof -
  have n: "namesOfType ''programming'' sampleLanguages = [''CMake'', ''RenderScript'', ''Rust'']"
    by code_simp
  have p: "''programming'' \<notin> set objectPrototypeNames" by code_simp
  have a: "''aliens'' \<notin> set objectPrototypeNames" by code_simp
  have p4: "''programming'' \<in> {''data'', ''programming'', ''markup'', ''prose''}" by simp
  have a4: "''aliens'' \<notin> {''data'', ''programming'', ''markup'', ''prose''}" by simp
  note t = C7_stored_names [where rawLanguages = sampleLanguages and c = "''programming''"
      and g = sample and toLowerCase = toLowerCaseASCII, OF sample_built p]
  note u = C7_stored_names [where rawLanguages = sampleLanguages and c = "''aliens''"
      and g = sample and toLowerCase = toLowerCaseASCII, OF sample_built a]
  have g: "getLanguagesByType (typesDB sample) ''programming'' =
      Own [''CMake'', ''RenderScript'', ''Rust'']"
    using t unfolding if_P [OF p4] n .
  have e: "getLanguagesByType (typesDB sample) ''aliens'' = Own []"
    using u unfolding if_not_P [OF a4] .
  from sample_built p a n g e show ?thesis by blast
qed

text \<open>
  C7 as stated fails. With two names that share a lowercased key, \<open>getLanguagesByType\<close>
  returns the stored name \<open>Foo\<close> for the category \<open>programming\<close>, while resolving that name
  through \<open>getLanguage\<close> gives the record of \<open>FOO\<close>, of category \<open>data\<close>. The earlier
  revision, which does look the stored names up again, looks them up without lowercasing
  and finds none of the three programming languages of the sample dataset.
\<close>

theorem C7_counterexample:
  "generateJSONs toLowerCaseASCII collidingLanguages = Inr colliding
   \<and> getLanguagesByType (typesDB colliding) ''programming'' = Own [''Foo'']
   \<and> getLanguagesByType_spec toLowerCaseASCII (languagesDB colliding) (typesDB colliding)
        ''programming'' =
       [Own \<lparr>name = ''FOO'', type = ''data'', extensions = [''.foo''], filenames = [],
              group = None\<rparr>]
   \<and> generateJSONs toLowerCaseASCII sampleLanguages = Inr sample
   \<and> getLanguagesByType_part_003 (languagesDB sample) (typesDB sample) ''programming'' = []
   \<and> length (getLanguagesByType_spec toLowerCaseASCII (languagesDB sample) (typesDB sample)
        ''programming'') = 3"
proof -
  have a: "getLanguagesByType (typesDB colliding) ''programming'' = Own [''Foo'']" by code_simp
  have b: "getLanguagesByType_spec toLowerCaseASCII (languagesDB colliding) (typesDB colliding)
        ''programming'' =
       [Own \<lparr>name = ''FOO'', type = ''data'', extensions = [''.foo''], filenames = [],
              group = None\<rparr>]"
    by code_simp
  have c: "getLanguagesByType_part_003 (languagesDB sample) (typesDB sample) ''programming'' = []"
    by code_simp
  have d: "length (getLanguagesByType_spec toLowerCaseASCII (languagesDB sample) (typesDB sample)
        ''programming'') = 3"
    by code_simp
  from colliding_built sample_built a b c d show ?thesis by blast
qed

section \<open>Where the builder meets the members of Object.prototype\<close>



text \<open>
  C9 says that no key of a reverse index dangles. For the dataset \<open>protoLanguages\<close>, whose
  one language is named \<open>__proto__\<close> and claims \<open>.pp\<close>, the builder completes, the entry
  of \<open>.pp\<close> in the extension index is the key \<open>__proto__\<close>, and the store has no record
  at that key: the assignment replaced the prototype of the store. By
  \<open>no_dangling_except_proto\<close> every other key of a reverse index has a record.
\<close>

theorem C9_dangling_proto_key:
  assumes "toLowerCase ''__proto__'' = ''__proto__''"
  shows "\<exists>g. generateJSONs toLowerCase protoLanguages = Inr g
            \<and> extensionIndex g ''.pp'' = Some [''__proto__'']
            \<and> languagesDB g ''__proto__'' = None"
  using assms
  by (simp add: generateJSONs_def protoLanguages_def processEntry_def Let_def pushTo_def
        pushType_def getProp_def setProp_def initialIndices_def objectPrototypeNames_def)

theorem C9_dangling_proto_key_witness:
  "toLowerCaseASCII ''__proto__'' = ''__proto__''
   \<and> (\<exists>g. generateJSONs toLowerCaseASCII protoLanguages = Inr g
          \<and> extensionIndex g ''.pp'' = Some [''__proto__'']
          \<and> languagesDB g ''__proto__'' = None)"
proof -
  have l: "toLowerCaseASCII ''__proto__'' = ''__proto__''" by code_simp
  from l C9_dangling_proto_key [where toLowerCase = toLowerCaseASCII, OF l]
  show ?thesis by blast
qed

end
